theory Spec2Isabelle
  imports Main "HOL-Library.Sublist"
begin

section \<open>Syntax-tree nodes seen by the collectors\<close>

text \<open>
  The concrete syntax tree comes from libcst, which is not part of the repository.
  The collectors of \<^verbatim>\<open>client/commands/statistics.py\<close> only read three things
  from it: whether a parameter has an annotation, whether a function definition has a
  return annotation together with its two parameter sub-lists, and the text of a
  comment.  A node carries exactly these.
\<close>

datatype Annotation = Annotation string

record Param =
  name :: string
  annotation :: "Annotation option"

record Parameters =
  params :: "Param list"
  default_params :: "Param list"

record FunctionDef =
  returns :: "Annotation option"
  parameters :: Parameters

text \<open>
  A Python \<^verbatim>\<open>str\<close> is a sequence of Unicode code points.  The text of a comment and
  the keys of the suppression counts are kept so, as lists of numbers, since the
  pattern of the suppression collector has a class that reaches beyond ASCII; \<open>lit\<close>
  gives the code points of a literal.
\<close>

type_synonym str = "nat list"

abbreviation lit :: "string \<Rightarrow> str" where
  "lit s \<equiv> map of_char s"

text \<open>
  libcst dispatches on the kind of a node: \<^verbatim>\<open>visit_FunctionDef\<close>,
  \<^verbatim>\<open>visit_Assign\<close>, \<^verbatim>\<open>visit_AnnAssign\<close> and \<^verbatim>\<open>visit_Comment\<close> are the
  only handlers the collectors define; a node of any other kind reaches no handler.
  Every handler returns \<^verbatim>\<open>None\<close>, so the traversal always descends into the
  children, and a module is represented by the sequence of its nodes in visiting order.
\<close>

datatype node =
    FunctionDefNode FunctionDef
  | AssignNode
  | AnnAssignNode
  | CommentNode str
  | OtherNode

type_synonym module = "node list"

section \<open>AnnotationCountCollector\<close>

record AnnotationCountCollector =
  return_count :: int
  annotated_return_count :: int
  globals_count :: int
  annotated_globals_count :: int
  parameter_count :: int
  annotated_parameter_count :: int

text \<open>The constructor; every argument defaults to 0.\<close>

definition AnnotationCountCollector_init ::
  "int \<Rightarrow> int \<Rightarrow> int \<Rightarrow> int \<Rightarrow> int \<Rightarrow> int \<Rightarrow> AnnotationCountCollector" where
  "AnnotationCountCollector_init rc arc gc agc pc apc =
     \<lparr>return_count = rc, annotated_return_count = arc,
      globals_count = gc, annotated_globals_count = agc,
      parameter_count = pc, annotated_parameter_count = apc\<rparr>"

definition AnnotationCountCollector_default :: AnnotationCountCollector where
  "AnnotationCountCollector_default = AnnotationCountCollector_init 0 0 0 0 0 0"

definition annotation_build_json :: "AnnotationCountCollector \<Rightarrow> (string \<times> int) list" where
  "annotation_build_json self =
     [(''return_count'', return_count self),
      (''annotated_return_count'', annotated_return_count self),
      (''globals_count'', globals_count self),
      (''annotated_globals_count'', annotated_globals_count self),
      (''parameter_count'', parameter_count self),
      (''annotated_parameter_count'', annotated_parameter_count self)]"

text \<open>The body of the loop of \<^verbatim>\<open>_check_parameter_annotations\<close>, for one parameter.\<close>

definition check_parameter :: "AnnotationCountCollector \<Rightarrow> Param \<Rightarrow> AnnotationCountCollector" where
  "check_parameter self parameter =
     (let self1 = self\<lparr>parameter_count := parameter_count self + 1\<rparr>
      in if annotation parameter \<noteq> None
         then self1\<lparr>annotated_parameter_count := annotated_parameter_count self1 + 1\<rparr>
         else self1)"

fun check_parameter_annotations ::
  "AnnotationCountCollector \<Rightarrow> Param list \<Rightarrow> AnnotationCountCollector" where
  "check_parameter_annotations self [] = self"
| "check_parameter_annotations self (parameter # rest) =
     check_parameter_annotations (check_parameter self parameter) rest"

definition visit_FunctionDef ::
  "AnnotationCountCollector \<Rightarrow> FunctionDef \<Rightarrow> AnnotationCountCollector" where
  "visit_FunctionDef self node =
     (let self1 = self\<lparr>return_count := return_count self + 1\<rparr>;
          self2 = (if returns node \<noteq> None
                   then self1\<lparr>annotated_return_count := annotated_return_count self1 + 1\<rparr>
                   else self1);
          self3 = check_parameter_annotations self2 (default_params (parameters node))
      in check_parameter_annotations self3 (params (parameters node)))"

definition visit_Assign :: "AnnotationCountCollector \<Rightarrow> AnnotationCountCollector" where
  "visit_Assign self = self\<lparr>globals_count := globals_count self + 1\<rparr>"

definition visit_AnnAssign :: "AnnotationCountCollector \<Rightarrow> AnnotationCountCollector" where
  "visit_AnnAssign self =
     (let self1 = self\<lparr>globals_count := globals_count self + 1\<rparr>
      in self1\<lparr>annotated_globals_count := annotated_globals_count self1 + 1\<rparr>)"

text \<open>The dispatch of one node to the handlers of the annotation collector.\<close>

fun annotation_visit :: "AnnotationCountCollector \<Rightarrow> node \<Rightarrow> AnnotationCountCollector" where
  "annotation_visit self (FunctionDefNode f) = visit_FunctionDef self f"
| "annotation_visit self AssignNode = visit_Assign self"
| "annotation_visit self AnnAssignNode = visit_AnnAssign self"
| "annotation_visit self (CommentNode v) = self"
| "annotation_visit self OtherNode = self"

section \<open>Dictionary objects and the store\<close>

text \<open>
  The suppression counts live in a dictionary object that the collector only holds a
  reference to: the constructor stores the reference it is given, and its default
  argument is one object created when the class is defined.  Dictionary objects are
  therefore kept in a store, addressed by their position; a new object is appended.
  A dictionary is either a \<^verbatim>\<open>defaultdict(int)\<close>, whose \<^verbatim>\<open>__getitem__\<close> inserts 0
  for a missing key, or a plain \<^verbatim>\<open>dict\<close>, whose \<^verbatim>\<open>__getitem__\<close> raises
  \<^verbatim>\<open>KeyError\<close> there.
\<close>

datatype error = KeyError str | ParseError | ReadError

type_synonym addr = nat

record dict_obj =
  is_defaultdict :: bool
  items :: "str \<rightharpoonup> int"

type_synonym heap = "dict_obj list"

definition new_object :: "heap \<Rightarrow> dict_obj \<Rightarrow> addr \<times> heap" where
  "new_object h obj = (length h, h @ [obj])"

definition dict_getitem :: "dict_obj \<Rightarrow> str \<Rightarrow> error + (int \<times> dict_obj)" where
  "dict_getitem d key =
     (case items d key of
        Some v \<Rightarrow> Inr (v, d)
      | None \<Rightarrow>
          if is_defaultdict d then Inr (0, d\<lparr>items := (items d)(key \<mapsto> 0)\<rparr>)
          else Inl (KeyError key))"

definition dict_setitem :: "dict_obj \<Rightarrow> str \<Rightarrow> int \<Rightarrow> dict_obj" where
  "dict_setitem d key v = d\<lparr>items := (items d)(key \<mapsto> v)\<rparr>"

text \<open>\<^verbatim>\<open>dict(d)\<close>: a new plain dictionary with the items of \<open>d\<close>.\<close>

definition dict_copy :: "dict_obj \<Rightarrow> dict_obj" where
  "dict_copy d = \<lparr>is_defaultdict = False, items = items d\<rparr>"

section \<open>FixmeCountCollector\<close>

text \<open>
  \<^verbatim>\<open>re.match("# pyre-fixme\[(\d*)\]:", node.value)\<close> matches at the start of the
  comment only: the literal \<^verbatim>\<open># pyre-fixme[\<close>, then a run of decimal digits that is
  as long as the rest of the pattern allows, then the literal \<^verbatim>\<open>]:\<close>; what follows is
  not looked at.  The result is group 1, the run of digits.

  On a \<^verbatim>\<open>str\<close> the class \<^verbatim>\<open>\d\<close> is the decimal digits of the Unicode table of the
  Python runtime, which is not part of the repository and grows from one version of
  Unicode to the next: it is the parameter \<open>decimal\<close>, a predicate on code points.
\<close>

definition fixme_regex_open :: str where
  "fixme_regex_open = lit ''# pyre-fixme[''"

definition fixme_regex_close :: str where
  "fixme_regex_close = lit '']:''"

text \<open>
  The greedy \<^verbatim>\<open>(\d*)\<close> followed by a literal: one more digit is taken when the rest
  of the pattern still matches after it, and otherwise the literal must stand here.
\<close>

fun re_digits_then :: "(nat \<Rightarrow> bool) \<Rightarrow> str \<Rightarrow> str \<Rightarrow> str option" where
  "re_digits_then decimal close [] = (if prefix close [] then Some [] else None)"
| "re_digits_then decimal close (c # cs) =
     (case (if decimal c then re_digits_then decimal close cs else None) of
        Some ds \<Rightarrow> Some (c # ds)
      | None \<Rightarrow> if prefix close (c # cs) then Some [] else None)"

definition re_match_fixme :: "(nat \<Rightarrow> bool) \<Rightarrow> str \<Rightarrow> str option" where
  "re_match_fixme decimal comment =
     (if prefix fixme_regex_open comment
      then re_digits_then decimal fixme_regex_close (drop (length fixme_regex_open) comment)
      else None)"

record FixmeCountCollector =
  fixme_counts :: addr

text \<open>
  Loading the module evaluates the default argument \<^verbatim>\<open>defaultdict(int)\<close> of
  \<^verbatim>\<open>FixmeCountCollector.__init__\<close> once; the address of that object is what every
  later call without an argument receives.
\<close>

definition load_module :: "heap \<Rightarrow> addr \<times> heap" where
  "load_module h = new_object h \<lparr>is_defaultdict = True, items = Map.empty\<rparr>"

definition FixmeCountCollector_init :: "addr \<Rightarrow> addr option \<Rightarrow> FixmeCountCollector" where
  "FixmeCountCollector_init init_default fixme_counts_arg =
     \<lparr>fixme_counts = (case fixme_counts_arg of None \<Rightarrow> init_default | Some a \<Rightarrow> a)\<rparr>"

text \<open>
  \<^verbatim>\<open>self.fixme_counts[match.group(1)] += 1\<close> reads the item and stores it back
  incremented.
\<close>

definition visit_Comment ::
  "(nat \<Rightarrow> bool) \<Rightarrow> FixmeCountCollector \<Rightarrow> str \<Rightarrow> heap \<Rightarrow> error + heap" where
  "visit_Comment decimal self comment h =
     (case re_match_fixme decimal comment of
        None \<Rightarrow> Inr h
      | Some code \<Rightarrow>
          (case dict_getitem (h ! fixme_counts self) code of
             Inl e \<Rightarrow> Inl e
           | Inr (v, d) \<Rightarrow> Inr (h[fixme_counts self := dict_setitem d code (v + 1)])))"

definition fixme_build_json :: "FixmeCountCollector \<Rightarrow> heap \<Rightarrow> addr \<times> heap" where
  "fixme_build_json self h = new_object h (dict_copy (h ! fixme_counts self))"

text \<open>The dispatch of one node to the only handler of the suppression collector.\<close>

fun fixme_visit ::
  "(nat \<Rightarrow> bool) \<Rightarrow> FixmeCountCollector \<Rightarrow> node \<Rightarrow> heap \<Rightarrow> error + heap" where
  "fixme_visit decimal self (CommentNode comment) h = visit_Comment decimal self comment h"
| "fixme_visit decimal self (FunctionDefNode f) h = Inr h"
| "fixme_visit decimal self AssignNode h = Inr h"
| "fixme_visit decimal self AnnAssignNode h = Inr h"
| "fixme_visit decimal self OtherNode h = Inr h"

section \<open>Path resolution\<close>

text \<open>
  \<^verbatim>\<open>pathlib\<close> is not part of the repository: a path is kept as the expression that
  built it, \<^verbatim>\<open>Path(s)\<close> or \<^verbatim>\<open>p / s\<close>, and \<^verbatim>\<open>Path.cwd()\<close> is a parameter.  The
  strings are sequences of code points, as the text of a comment is.
\<close>

datatype path = Path str | PathJoin path str

text \<open>
  \<^verbatim>\<open>str.replace(old, new)\<close>: every occurrence of \<open>old\<close>, found from left to right
  without overlaps, is replaced; an empty \<open>old\<close> matches before every character and at
  the end.
\<close>

function str_replace_from :: "str \<Rightarrow> str \<Rightarrow> str \<Rightarrow> str" where
  "str_replace_from old new [] = []"
| "str_replace_from old new (c # cs) =
     (if old \<noteq> [] \<and> prefix old (c # cs)
      then new @ str_replace_from old new (drop (length old) (c # cs))
      else c # str_replace_from old new cs)"
  by pat_completeness auto
termination
  by (relation "measure (\<lambda>(old, new, s). length s)") auto

definition str_replace :: "str \<Rightarrow> str \<Rightarrow> str \<Rightarrow> str" where
  "str_replace s old new =
     (if old = [] then new @ concat (map (\<lambda>c. c # new) s)
      else str_replace_from old new s)"

definition configuration_marker :: str where
  "configuration_marker = lit ''.pyre_configuration.local''"

text \<open>Lines 133 to 138 of \<^verbatim>\<open>_find_paths\<close>: the local variable of that name.\<close>

definition pyre_configuration_directory :: "path \<Rightarrow> str \<Rightarrow> path" where
  "pyre_configuration_directory cwd local_configuration =
     (if local_configuration \<noteq> []
      then Path (str_replace local_configuration configuration_marker [])
      else cwd)"

definition find_paths :: "path \<Rightarrow> str \<Rightarrow> str list \<Rightarrow> path list" where
  "find_paths cwd local_configuration paths =
     (if paths \<noteq> []
      then map (\<lambda>path. PathJoin (pyre_configuration_directory cwd local_configuration) path)
             paths
      else [pyre_configuration_directory cwd local_configuration])"

section \<open>Aggregation and the command\<close>

text \<open>\<^verbatim>\<open>_count\<close>, once for each kind of collector: every module is visited in turn.\<close>

fun annotation_visit_module :: "AnnotationCountCollector \<Rightarrow> module \<Rightarrow> AnnotationCountCollector" where
  "annotation_visit_module self [] = self"
| "annotation_visit_module self (n # ns) = annotation_visit_module (annotation_visit self n) ns"

fun count_annotations :: "module list \<Rightarrow> AnnotationCountCollector \<Rightarrow> AnnotationCountCollector" where
  "count_annotations [] collector = collector"
| "count_annotations (path # paths) collector =
     count_annotations paths (annotation_visit_module collector path)"

fun fixme_visit_module ::
  "(nat \<Rightarrow> bool) \<Rightarrow> FixmeCountCollector \<Rightarrow> module \<Rightarrow> heap \<Rightarrow> error + heap" where
  "fixme_visit_module decimal self [] h = Inr h"
| "fixme_visit_module decimal self (n # ns) h =
     (case fixme_visit decimal self n h of
        Inl e \<Rightarrow> Inl e
      | Inr h' \<Rightarrow> fixme_visit_module decimal self ns h')"

fun count_fixmes ::
  "(nat \<Rightarrow> bool) \<Rightarrow> module list \<Rightarrow> FixmeCountCollector \<Rightarrow> heap \<Rightarrow> error + heap" where
  "count_fixmes decimal [] collector h = Inr h"
| "count_fixmes decimal (path # paths) collector h =
     (case fixme_visit_module decimal collector path h of
        Inl e \<Rightarrow> Inl e
      | Inr h' \<Rightarrow> count_fixmes decimal paths collector h')"

record report =
  annotations :: "(string \<times> int) list"
  fixmes :: "str \<rightharpoonup> int"

text \<open>
  \<^verbatim>\<open>Statistics._run\<close>.  Reading and parsing the files (\<^verbatim>\<open>_parse_paths\<close>) needs the
  file system and libcst, so it is the parameter \<open>parse_paths\<close>, which may fail;
  \<open>decimal\<close> is the runtime's table of decimal digits and \<open>init_default\<close> is the address of the default argument of the collector's
  constructor.  The result is the report handed to \<^verbatim>\<open>json.dumps\<close>, with the store
  the run leaves behind.
\<close>

definition run ::
  "(nat \<Rightarrow> bool) \<Rightarrow> (path list \<Rightarrow> error + module list) \<Rightarrow> path \<Rightarrow> addr \<Rightarrow> str
     \<Rightarrow> str list \<Rightarrow> heap \<Rightarrow> error + (report \<times> heap)" where
  "run decimal parse_paths cwd init_default local_configuration filter_paths h =
     (let paths = find_paths cwd local_configuration filter_paths
      in case parse_paths paths of
           Inl e \<Rightarrow> Inl e
         | Inr parsed_paths \<Rightarrow>
             (let annotations_collector =
                    count_annotations parsed_paths AnnotationCountCollector_default;
                  fixmes_collector = FixmeCountCollector_init init_default None
              in case count_fixmes decimal parsed_paths fixmes_collector h of
                   Inl e \<Rightarrow> Inl e
                 | Inr h1 \<Rightarrow>
                     (let (r, h2) = fixme_build_json fixmes_collector h1
                      in Inr (\<lparr>annotations = annotation_build_json annotations_collector,
                                fixmes = items (h2 ! r)\<rparr>, h2))))"

section \<open>Notions used to state the properties\<close>

text \<open>The three inequalities between an annotated count and its total.\<close>

definition coverage_ordered :: "AnnotationCountCollector \<Rightarrow> bool" where
  "coverage_ordered c \<longleftrightarrow>
     annotated_return_count c \<le> return_count c \<and>
     annotated_parameter_count c \<le> parameter_count c \<and>
     annotated_globals_count c \<le> globals_count c"

definition annotated :: "Param \<Rightarrow> bool" where
  "annotated p \<longleftrightarrow> annotation p \<noteq> None"

text \<open>The count a dictionary holds for a key, 0 when the key is absent.\<close>

definition counter_value :: "dict_obj \<Rightarrow> str \<Rightarrow> int" where
  "counter_value d key = (case items d key of None \<Rightarrow> 0 | Some v \<Rightarrow> v)"

text \<open>The dictionary with the count of one key raised by 1 and nothing else changed.\<close>

definition incremented :: "dict_obj \<Rightarrow> str \<Rightarrow> dict_obj" where
  "incremented d key = d\<lparr>items := (items d)(key \<mapsto> counter_value d key + 1)\<rparr>"

text \<open>
  A table of decimal digits for the examples: the ASCII digits, the Arabic-Indic digits
  U+0660 to U+0669 and the fullwidth digits U+FF10 to U+FF19, which are decimal digits
  in every version of Unicode.
\<close>

definition sample_decimal :: "nat \<Rightarrow> bool" where
  "sample_decimal c \<longleftrightarrow>
     (48 \<le> c \<and> c \<le> 57) \<or> (1632 \<le> c \<and> c \<le> 1641) \<or> (65296 \<le> c \<and> c \<le> 65305)"

text \<open>
  What the specification describes for an override string: a configuration marker at
  the end of the string is cut off, and nothing else is touched.
\<close>

definition strip_trailing_marker :: "str \<Rightarrow> str" where
  "strip_trailing_marker s =
     (if suffix configuration_marker s
      then take (length s - length configuration_marker) s
      else s)"

text \<open>A check, by one pass over the string, that \<open>old\<close> occurs in it at the end only.\<close>

fun only_at_end :: "str \<Rightarrow> str \<Rightarrow> bool" where
  "only_at_end old [] = True"
| "only_at_end old (c # cs) = ((prefix old (c # cs) \<longrightarrow> c # cs = old) \<and> only_at_end old cs)"

section \<open>Properties of the annotation collector\<close>

lemma check_parameter_annotations_append:
  "check_parameter_annotations c (ps @ qs) =
     check_parameter_annotations (check_parameter_annotations c ps) qs"
  by (induction ps arbitrary: c) simp_all

lemma check_parameter_annotations_effect:
  "check_parameter_annotations c ps =
     c\<lparr>parameter_count := parameter_count c + int (length ps),
       annotated_parameter_count :=
         annotated_parameter_count c + int (length (filter annotated ps))\<rparr>"
proof (induction ps arbitrary: c)
  case Nil
  show ?case by simp
next
  case (Cons p ps)
  show ?case
    by (simp add: Cons.IH check_parameter_def annotated_def Let_def)
qed

lemma visit_FunctionDef_effect:
  "visit_FunctionDef c f =
     c\<lparr>return_count := return_count c + 1,
       annotated_return_count :=
         annotated_return_count c + (if returns f \<noteq> None then 1 else 0),
       parameter_count :=
         parameter_count c
           + int (length (default_params (parameters f) @ params (parameters f))),
       annotated_parameter_count :=
         annotated_parameter_count c
           + int (length (filter annotated
                   (default_params (parameters f) @ params (parameters f))))\<rparr>"
  by (simp add: visit_FunctionDef_def check_parameter_annotations_effect Let_def)

lemma coverage_ordered_visit:
  "coverage_ordered c \<Longrightarrow> coverage_ordered (annotation_visit c n)"
proof (cases n)
  case (FunctionDefNode f)
  have "int (length (filter annotated (default_params (parameters f) @ params (parameters f))))
        \<le> int (length (default_params (parameters f) @ params (parameters f)))"
    using length_filter_le [of annotated "default_params (parameters f) @ params (parameters f)"]
    by linarith
  moreover assume "coverage_ordered c"
  ultimately show ?thesis
    unfolding FunctionDefNode coverage_ordered_def
    by (simp add: visit_FunctionDef_effect)
qed (simp_all add: coverage_ordered_def visit_Assign_def visit_AnnAssign_def Let_def)

lemma coverage_ordered_foldl:
  "coverage_ordered c \<Longrightarrow> coverage_ordered (foldl annotation_visit c ns)"
  by (induction ns arbitrary: c) (simp_all add: coverage_ordered_visit)

text \<open>
  Claim C1.  Visiting one function definition adds exactly 1 to \<open>return_count\<close>, adds 1
  to \<open>annotated_return_count\<close> exactly when the node has a return annotation, adds the
  number N of parameters of the default-parameter and plain-parameter sub-lists to
  \<open>parameter_count\<close> and the number K of annotated ones among them to
  \<open>annotated_parameter_count\<close>; the default-parameter sub-list is processed first, then
  the plain one, so the result is the one of processing their concatenation in that order.
\<close>

theorem visit_FunctionDef_counts:
  fixes c :: AnnotationCountCollector and f :: FunctionDef
  defines "ps \<equiv> default_params (parameters f) @ params (parameters f)"
  shows "return_count (visit_FunctionDef c f) = return_count c + 1
    \<and> annotated_return_count (visit_FunctionDef c f)
        = annotated_return_count c + (if returns f = None then 0 else 1)
    \<and> parameter_count (visit_FunctionDef c f) = parameter_count c + int (length ps)
    \<and> annotated_parameter_count (visit_FunctionDef c f)
        = annotated_parameter_count c + int (length (filter annotated ps))
    \<and> visit_FunctionDef c f
        = check_parameter_annotations
            (c\<lparr>return_count := return_count c + 1,
               annotated_return_count :=
                 annotated_return_count c + (if returns f = None then 0 else 1)\<rparr>) ps"
  unfolding ps_def
  by (simp add: visit_FunctionDef_effect check_parameter_annotations_effect)

text \<open>
  Claim C3.  A plain assignment adds exactly 1 to \<open>globals_count\<close> and leaves every
  other counter, \<open>annotated_globals_count\<close> among them, as it was; an annotated
  assignment adds exactly 1 to \<open>globals_count\<close> and to \<open>annotated_globals_count\<close> and
  leaves the four other counters as they were.
\<close>

theorem visit_Assign_AnnAssign_counts:
  "annotation_visit c AssignNode = c\<lparr>globals_count := globals_count c + 1\<rparr>
   \<and> globals_count (annotation_visit c AssignNode) = globals_count c + 1
   \<and> annotated_globals_count (annotation_visit c AssignNode) = annotated_globals_count c
   \<and> annotation_visit c AnnAssignNode
       = c\<lparr>globals_count := globals_count c + 1,
            annotated_globals_count := annotated_globals_count c + 1\<rparr>
   \<and> globals_count (annotation_visit c AnnAssignNode) = globals_count c + 1
   \<and> annotated_globals_count (annotation_visit c AnnAssignNode)
       = annotated_globals_count c + 1"
  by (simp add: visit_Assign_def visit_AnnAssign_def Let_def)

text \<open>
  Claim C4.  Starting from the zero-initialised collector, after any sequence of handler
  invocations, and so after every step of it (every prefix \<open>take k ns\<close> of the
  sequence), each annotated count is at most its total.
\<close>

theorem coverage_ordered_always:
  "coverage_ordered (foldl annotation_visit AnnotationCountCollector_default (take k ns))"
proof -
  have "coverage_ordered AnnotationCountCollector_default"
    by (simp add: coverage_ordered_def AnnotationCountCollector_default_def
        AnnotationCountCollector_init_def)
  then show ?thesis
    by (rule coverage_ordered_foldl)
qed


section \<open>Properties of the suppression collector\<close>

lemma re_digits_then_sound:
  "re_digits_then decimal close s = Some ds \<Longrightarrow>
     list_all decimal ds \<and> (\<exists>rest. s = ds @ close @ rest)"
proof (induction s arbitrary: ds)
  case Nil
  then show ?case by (simp split: if_splits)
next
  case (Cons c cs)
  show ?case
  proof (cases "if decimal c then re_digits_then decimal close cs else None")
    case None
    with Cons.prems have "prefix close (c # cs)" and "ds = []"
      by (simp_all split: if_splits)
    then show ?thesis by (auto simp: prefix_def)
  next
    case (Some es)
    with Cons.prems have ds: "ds = c # es" by simp
    from Some have c: "decimal c" and es: "re_digits_then decimal close cs = Some es"
      by (simp_all split: if_splits)
    from Cons.IH [OF es] c ds show ?thesis by auto
  qed
qed

lemma re_digits_then_complete:
  assumes "list_all decimal ds" and "close = c0 # cl" and "\<not> decimal c0"
  shows "re_digits_then decimal close (ds @ close @ rest) = Some ds"
  using assms(1)
proof (induction ds)
  case Nil
  show ?case using assms(2,3) by simp
next
  case (Cons d ds)
  then show ?case by simp
qed

lemma re_match_fixme_intro:
  assumes "list_all decimal ds" and "\<not> decimal (of_char (CHR '']''))"
  shows "re_match_fixme decimal (fixme_regex_open @ ds @ fixme_regex_close @ rest) = Some ds"
proof -
  have "fixme_regex_close = of_char (CHR '']'') # [of_char (CHR '':'')]"
    by (simp add: fixme_regex_close_def)
  then have "re_digits_then decimal fixme_regex_close (ds @ fixme_regex_close @ rest) = Some ds"
    using assms by (intro re_digits_then_complete) auto
  then show ?thesis by (simp add: re_match_fixme_def)
qed

lemma re_match_fixme_elim:
  assumes "re_match_fixme decimal comment = Some ds"
  shows "list_all decimal ds
    \<and> (\<exists>rest. comment = fixme_regex_open @ ds @ fixme_regex_close @ rest)"
proof -
  from assms have p: "prefix fixme_regex_open comment"
    by (simp add: re_match_fixme_def split: if_splits)
  then obtain r where tx: "comment = fixme_regex_open @ r"
    by (auto simp: prefix_def)
  from assms have "re_digits_then decimal fixme_regex_close r = Some ds"
    by (simp add: re_match_fixme_def tx)
  then have "list_all decimal ds \<and> (\<exists>rest. r = ds @ fixme_regex_close @ rest)"
    by (rule re_digits_then_sound)
  then show ?thesis using tx by auto
qed

lemma visit_Comment_no_match:
  "re_match_fixme decimal comment = None \<Longrightarrow> visit_Comment decimal self comment h = Inr h"
  by (simp add: visit_Comment_def)

lemma visit_Comment_match:
  assumes "re_match_fixme decimal comment = Some code"
    and "is_defaultdict (h ! fixme_counts self)"
  shows "visit_Comment decimal self comment h
           = Inr (h[fixme_counts self := incremented (h ! fixme_counts self) code])"
  using assms
  by (simp add: visit_Comment_def dict_getitem_def dict_setitem_def incremented_def
      counter_value_def split: option.splits)

lemma incremented_items:
  "items (incremented d code) code = Some (counter_value d code + 1)"
  "key \<noteq> code \<Longrightarrow> items (incremented d code) key = items d key"
  by (simp_all add: incremented_def)

text \<open>
  The two cases of the handler, with the pattern written out: a comment that starts
  with the marker, and a comment that does not.
\<close>

lemma visit_Comment_marker:
  assumes "list_all decimal ds"
    and "\<not> decimal (of_char (CHR '']''))"
    and "is_defaultdict (h ! fixme_counts self)"
  shows "visit_Comment decimal self (lit ''# pyre-fixme['' @ ds @ lit '']:'' @ rest) h
           = Inr (h[fixme_counts self := incremented (h ! fixme_counts self) ds])"
proof -
  have "re_match_fixme decimal (fixme_regex_open @ ds @ fixme_regex_close @ rest) = Some ds"
    using assms(1,2) by (rule re_match_fixme_intro)
  then have "visit_Comment decimal self (fixme_regex_open @ ds @ fixme_regex_close @ rest) h
     = Inr (h[fixme_counts self := incremented (h ! fixme_counts self) ds])"
    using assms(3) by (rule visit_Comment_match)
  then show ?thesis
    by (simp only: fixme_regex_open_def fixme_regex_close_def)
qed

lemma visit_Comment_no_marker:
  assumes "\<nexists>ds rest. list_all decimal ds
      \<and> comment = lit ''# pyre-fixme['' @ ds @ lit '']:'' @ rest"
  shows "visit_Comment decimal self comment h = Inr h"
proof -
  have "re_match_fixme decimal comment = None"
  proof (cases "re_match_fixme decimal comment")
    case (Some ds)
    then have "list_all decimal ds
        \<and> (\<exists>rest. comment = fixme_regex_open @ ds @ fixme_regex_close @ rest)"
      by (rule re_match_fixme_elim)
    then have "\<exists>ds rest. list_all decimal ds
        \<and> comment = lit ''# pyre-fixme['' @ ds @ lit '']:'' @ rest"
      unfolding fixme_regex_open_def fixme_regex_close_def by blast
    with assms show ?thesis by blast
  qed simp
  then show ?thesis by (rule visit_Comment_no_match)
qed

lemma sample_decimal_ascii: "list_all sample_decimal (lit ''0123456789'')"
  by (simp add: sample_decimal_def)

lemma sample_decimal_bracket: "\<not> sample_decimal (of_char (CHR '']''))"
  by (simp add: sample_decimal_def)

text \<open>
  Claim C2.  On a collector whose counts are a \<^verbatim>\<open>defaultdict(int)\<close>, as the
  constructor's default is, a comment that starts with \<^verbatim>\<open># pyre-fixme[\<close>, decimal
  digits and \<^verbatim>\<open>]:\<close> changes one counter only, the one of these digits, which goes up
  by 1; a comment that does not start so changes nothing.  The four comments
  \<^verbatim>\<open># pyre-fixme[7]:\<close>, \<^verbatim>\<open># pyre-fixme[7]:\<close>, \<^verbatim>\<open># pyre-fixme[35]:\<close>,
  \<^verbatim>\<open># not-a-fixme\<close>, visited from an empty map, leave exactly the map of 7 to 2 and of
  35 to 1, and \<^verbatim>\<open># pyre-fixme[]:\<close> matches and counts under the empty string.  This
  holds for every table of decimal digits that has the ten ASCII digits and does not
  have the closing bracket.
\<close>

theorem visit_Comment_counts:
  assumes "fixme_counts self < length h"
    and "is_defaultdict (h ! fixme_counts self)"
    and "list_all decimal (lit ''0123456789'')"
    and "\<not> decimal (of_char (CHR '']''))"
  shows "(\<forall>ds rest. list_all decimal ds \<longrightarrow>
            visit_Comment decimal self (lit ''# pyre-fixme['' @ ds @ lit '']:'' @ rest) h
              = Inr (h[fixme_counts self := incremented (h ! fixme_counts self) ds])
            \<and> items (incremented (h ! fixme_counts self) ds) ds
                = Some (counter_value (h ! fixme_counts self) ds + 1)
            \<and> (\<forall>key. key \<noteq> ds \<longrightarrow>
                  items (incremented (h ! fixme_counts self) ds) key
                    = items (h ! fixme_counts self) key))
    \<and> ((\<nexists>ds rest. list_all decimal ds
            \<and> comment = lit ''# pyre-fixme['' @ ds @ lit '']:'' @ rest)
          \<longrightarrow> visit_Comment decimal self comment h = Inr h)
    \<and> count_fixmes decimal
          [[CommentNode (lit ''# pyre-fixme[7]:''), CommentNode (lit ''# pyre-fixme[7]:''),
            CommentNode (lit ''# pyre-fixme[35]:''), CommentNode (lit ''# not-a-fixme'')]]
          \<lparr>fixme_counts = 0\<rparr> [\<lparr>is_defaultdict = True, items = Map.empty\<rparr>]
        = Inr [\<lparr>is_defaultdict = True, items = [lit ''7'' \<mapsto> 2, lit ''35'' \<mapsto> 1]\<rparr>]
    \<and> visit_Comment decimal \<lparr>fixme_counts = 0\<rparr> (lit ''# pyre-fixme[]:'')
          [\<lparr>is_defaultdict = True, items = Map.empty\<rparr>]
        = Inr [\<lparr>is_defaultdict = True, items = [lit '''' \<mapsto> 1]\<rparr>]"
proof -
  let ?c = "\<lparr>fixme_counts = 0\<rparr>"
  have matched: "\<forall>ds rest. list_all decimal ds \<longrightarrow>
            visit_Comment decimal self (lit ''# pyre-fixme['' @ ds @ lit '']:'' @ rest) h
              = Inr (h[fixme_counts self := incremented (h ! fixme_counts self) ds])
            \<and> items (incremented (h ! fixme_counts self) ds) ds
                = Some (counter_value (h ! fixme_counts self) ds + 1)
            \<and> (\<forall>key. key \<noteq> ds \<longrightarrow>
                  items (incremented (h ! fixme_counts self) ds) key
                    = items (h ! fixme_counts self) key)"
  proof (intro allI impI conjI)
    fix ds rest
    assume ds: "list_all decimal ds"
    show "visit_Comment decimal self (lit ''# pyre-fixme['' @ ds @ lit '']:'' @ rest) h
        = Inr (h[fixme_counts self := incremented (h ! fixme_counts self) ds])"
      using ds assms(4,2) by (rule visit_Comment_marker)
    show "items (incremented (h ! fixme_counts self) ds) ds
        = Some (counter_value (h ! fixme_counts self) ds + 1)"
      by (rule incremented_items(1))
  next
    fix ds :: str and key :: str
    assume "key \<noteq> ds"
    then show "items (incremented (h ! fixme_counts self) ds) key
        = items (h ! fixme_counts self) key"
      by (rule incremented_items(2))
  qed
  have unmatched: "(\<nexists>ds rest. list_all decimal ds
            \<and> comment = lit ''# pyre-fixme['' @ ds @ lit '']:'' @ rest)
          \<longrightarrow> visit_Comment decimal self comment h = Inr h"
    using visit_Comment_no_marker by blast
  have d7: "list_all decimal (lit ''7'')" and d35: "list_all decimal (lit ''35'')"
    using assms(3) by simp_all
  have d0: "list_all decimal []" by simp
  have v7: "visit_Comment decimal ?c (lit ''# pyre-fixme[7]:'') g
      = Inr (g[0 := incremented (g ! 0) (lit ''7'')])" if "is_defaultdict (g ! 0)" for g
    using visit_Comment_marker [OF d7 assms(4), of g ?c "[]"] that by simp
  have v35: "visit_Comment decimal ?c (lit ''# pyre-fixme[35]:'') g
      = Inr (g[0 := incremented (g ! 0) (lit ''35'')])" if "is_defaultdict (g ! 0)" for g
    using visit_Comment_marker [OF d35 assms(4), of g ?c "[]"] that by simp
  have v0: "visit_Comment decimal ?c (lit ''# pyre-fixme[]:'') g
      = Inr (g[0 := incremented (g ! 0) []])" if "is_defaultdict (g ! 0)" for g
    using visit_Comment_marker [OF d0 assms(4), of g ?c "[]"] that by simp
  have vn: "visit_Comment decimal ?c (lit ''# not-a-fixme'') g = Inr g" for g
    by (rule visit_Comment_no_marker) simp
  have four: "count_fixmes decimal
          [[CommentNode (lit ''# pyre-fixme[7]:''), CommentNode (lit ''# pyre-fixme[7]:''),
            CommentNode (lit ''# pyre-fixme[35]:''), CommentNode (lit ''# not-a-fixme'')]]
          ?c [\<lparr>is_defaultdict = True, items = Map.empty\<rparr>]
        = Inr [\<lparr>is_defaultdict = True, items = [lit ''7'' \<mapsto> 2, lit ''35'' \<mapsto> 1]\<rparr>]"
    by (simp add: v7 [simplified] v35 [simplified] vn [simplified]
        incremented_def counter_value_def)
  have empty_code: "visit_Comment decimal ?c (lit ''# pyre-fixme[]:'')
          [\<lparr>is_defaultdict = True, items = Map.empty\<rparr>]
        = Inr [\<lparr>is_defaultdict = True, items = [lit '''' \<mapsto> 1]\<rparr>]"
    by (simp add: v0 [simplified] incremented_def counter_value_def)
  from matched unmatched four empty_code show ?thesis by blast
qed

text \<open>
  The theorem at a table that has the ASCII and the Arabic-Indic digits, and at a store
  whose dictionary already counts 7 once: a comment with the code 7 raises that
  count alone, a comment with the Arabic-Indic digit three (U+0663) as its code counts
  under that digit, and a comment that does not match leaves the dictionary as it is.
\<close>

theorem visit_Comment_counts_witness:
  "visit_Comment sample_decimal \<lparr>fixme_counts = 0\<rparr> (lit ''# pyre-fixme[7]:'')
       [\<lparr>is_defaultdict = True, items = [lit ''7'' \<mapsto> 1]\<rparr>]
     = Inr [\<lparr>is_defaultdict = True, items = [lit ''7'' \<mapsto> 2]\<rparr>]
   \<and> visit_Comment sample_decimal \<lparr>fixme_counts = 0\<rparr>
       (lit ''# pyre-fixme['' @ [1635] @ lit '']:'')
       [\<lparr>is_defaultdict = True, items = [lit ''7'' \<mapsto> 1]\<rparr>]
     = Inr [\<lparr>is_defaultdict = True, items = [lit ''7'' \<mapsto> 1, [1635] \<mapsto> 1]\<rparr>]
   \<and> visit_Comment sample_decimal \<lparr>fixme_counts = 0\<rparr> (lit ''# not-a-fixme'')
       [\<lparr>is_defaultdict = True, items = [lit ''7'' \<mapsto> 1]\<rparr>]
     = Inr [\<lparr>is_defaultdict = True, items = [lit ''7'' \<mapsto> 1]\<rparr>]"
proof -
  let ?c = "\<lparr>fixme_counts = 0\<rparr>"
  let ?h = "[\<lparr>is_defaultdict = True, items = [lit ''7'' \<mapsto> (1::int)]\<rparr>]"
  have valid: "fixme_counts ?c < length ?h" by simp
  have dd: "is_defaultdict (?h ! fixme_counts ?c)" by simp
  note inst = visit_Comment_counts [where self = ?c and h = ?h and decimal = sample_decimal,
      OF valid dd sample_decimal_ascii sample_decimal_bracket]
  have d7: "list_all sample_decimal (lit ''7'')"
    and da: "list_all sample_decimal [1635]"
    by (simp_all add: sample_decimal_def)
  have "visit_Comment sample_decimal ?c (lit ''# pyre-fixme['' @ lit ''7'' @ lit '']:'' @ []) ?h
          = Inr (?h[fixme_counts ?c := incremented (?h ! fixme_counts ?c) (lit ''7'')])"
    using inst d7 by blast
  moreover have "visit_Comment sample_decimal ?c (lit ''# pyre-fixme['' @ [1635] @ lit '']:'' @ []) ?h
          = Inr (?h[fixme_counts ?c := incremented (?h ! fixme_counts ?c) [1635]])"
    using inst da by blast
  moreover have "\<nexists>ds rest. list_all sample_decimal ds
        \<and> lit ''# not-a-fixme'' = lit ''# pyre-fixme['' @ ds @ lit '']:'' @ rest"
    by simp
  then have "visit_Comment sample_decimal ?c (lit ''# not-a-fixme'') ?h = Inr ?h"
    using inst [of "lit ''# not-a-fixme''"] by blast
  ultimately show ?thesis
    by (simp add: incremented_def counter_value_def)
qed

text \<open>
  Claim C8.  The match looks at the start of the comment only.  Whatever follows
  \<^verbatim>\<open># pyre-fixme[<digits>]:\<close> at the start of a comment, the handler does what it does
  on the marker alone: the counter of the digits goes up by 1.  A comment that does
  not start with such a marker, whether or not a marker stands later in it, changes
  nothing.  This holds for every table of decimal digits that does not have the
  closing bracket.
\<close>

theorem visit_Comment_prefix_only:
  assumes "fixme_counts self < length h"
    and "is_defaultdict (h ! fixme_counts self)"
    and "\<not> decimal (of_char (CHR '']''))"
  shows "(\<forall>ds rest. list_all decimal ds \<longrightarrow>
            visit_Comment decimal self (lit ''# pyre-fixme['' @ ds @ lit '']:'' @ rest) h
              = Inr (h[fixme_counts self := incremented (h ! fixme_counts self) ds])
            \<and> visit_Comment decimal self (lit ''# pyre-fixme['' @ ds @ lit '']:'' @ rest) h
              = visit_Comment decimal self (lit ''# pyre-fixme['' @ ds @ lit '']:'') h)
    \<and> ((\<nexists>ds rest. list_all decimal ds
            \<and> comment = lit ''# pyre-fixme['' @ ds @ lit '']:'' @ rest)
          \<longrightarrow> visit_Comment decimal self comment h = Inr h)"
proof (intro conjI allI impI)
  fix ds rest
  assume ds: "list_all decimal ds"
  show long: "visit_Comment decimal self (lit ''# pyre-fixme['' @ ds @ lit '']:'' @ rest) h
     = Inr (h[fixme_counts self := incremented (h ! fixme_counts self) ds])"
    using ds assms(3,2) by (rule visit_Comment_marker)
  have "visit_Comment decimal self (lit ''# pyre-fixme['' @ ds @ lit '']:'' @ []) h
     = Inr (h[fixme_counts self := incremented (h ! fixme_counts self) ds])"
    using ds assms(3,2) by (rule visit_Comment_marker)
  with long
  show "visit_Comment decimal self (lit ''# pyre-fixme['' @ ds @ lit '']:'' @ rest) h
     = visit_Comment decimal self (lit ''# pyre-fixme['' @ ds @ lit '']:'') h"
    by simp
next
  assume "\<nexists>ds rest. list_all decimal ds
      \<and> comment = lit ''# pyre-fixme['' @ ds @ lit '']:'' @ rest"
  then show "visit_Comment decimal self comment h = Inr h"
    by (rule visit_Comment_no_marker)
qed

text \<open>
  The theorem at a comment with text after the colon, at a comment whose code is the
  fullwidth digit seven (U+FF17) in a table that has the fullwidth digits, and at a
  comment that has the marker after other text.
\<close>

theorem visit_Comment_prefix_only_witness:
  "visit_Comment sample_decimal \<lparr>fixme_counts = 0\<rparr> (lit ''# pyre-fixme[7]: explanation text'')
       [\<lparr>is_defaultdict = True, items = [lit ''7'' \<mapsto> 1]\<rparr>]
     = Inr [\<lparr>is_defaultdict = True, items = [lit ''7'' \<mapsto> 2]\<rparr>]
   \<and> visit_Comment sample_decimal \<lparr>fixme_counts = 0\<rparr>
       (lit ''# pyre-fixme['' @ [65303] @ lit '']: why'')
       [\<lparr>is_defaultdict = True, items = [lit ''7'' \<mapsto> 1]\<rparr>]
     = Inr [\<lparr>is_defaultdict = True, items = [lit ''7'' \<mapsto> 1, [65303] \<mapsto> 1]\<rparr>]
   \<and> visit_Comment sample_decimal \<lparr>fixme_counts = 0\<rparr> (lit ''# see # pyre-fixme[7]:'')
       [\<lparr>is_defaultdict = True, items = [lit ''7'' \<mapsto> 1]\<rparr>]
     = Inr [\<lparr>is_defaultdict = True, items = [lit ''7'' \<mapsto> 1]\<rparr>]"
proof -
  let ?c = "\<lparr>fixme_counts = 0\<rparr>"
  let ?h = "[\<lparr>is_defaultdict = True, items = [lit ''7'' \<mapsto> (1::int)]\<rparr>]"
  have valid: "fixme_counts ?c < length ?h" by simp
  have dd: "is_defaultdict (?h ! fixme_counts ?c)" by simp
  note inst = visit_Comment_prefix_only [where self = ?c and h = ?h and decimal = sample_decimal,
      OF valid dd sample_decimal_bracket]
  have d7: "list_all sample_decimal (lit ''7'')"
    and df: "list_all sample_decimal [65303]"
    by (simp_all add: sample_decimal_def)
  have "visit_Comment sample_decimal ?c
          (lit ''# pyre-fixme['' @ lit ''7'' @ lit '']:'' @ lit '' explanation text'') ?h
          = Inr (?h[fixme_counts ?c := incremented (?h ! fixme_counts ?c) (lit ''7'')])"
    using inst d7 by blast
  moreover have "visit_Comment sample_decimal ?c
          (lit ''# pyre-fixme['' @ [65303] @ lit '']:'' @ lit '' why'') ?h
          = Inr (?h[fixme_counts ?c := incremented (?h ! fixme_counts ?c) [65303]])"
    using inst df by blast
  moreover have "\<nexists>ds rest. list_all sample_decimal ds
        \<and> lit ''# see # pyre-fixme[7]:'' = lit ''# pyre-fixme['' @ ds @ lit '']:'' @ rest"
    by simp
  then have "visit_Comment sample_decimal ?c (lit ''# see # pyre-fixme[7]:'') ?h = Inr ?h"
    using inst [of "lit ''# see # pyre-fixme[7]:''"] by blast
  ultimately show ?thesis
    by (simp add: incremented_def counter_value_def)
qed

text \<open>
  Claim C9.  \<^verbatim>\<open>build_json\<close> of the suppression collector returns a new dictionary
  object with the items of the collector's one: the address returned was not in use,
  no object of the store is changed, a second call returns equal items, and putting
  any dictionary \<open>d\<close> in the place of the returned one changes neither the
  collector's dictionary nor what a later call returns.
\<close>

theorem fixme_build_json_fresh_copy:
  assumes "fixme_counts self < length h"
    and "fixme_build_json self h = (r, h')"
  shows "r = length h \<and> r \<noteq> fixme_counts self
    \<and> take (length h) h' = h
    \<and> h' ! fixme_counts self = h ! fixme_counts self
    \<and> items (h' ! r) = items (h ! fixme_counts self)
    \<and> items (snd (fixme_build_json self h') ! fst (fixme_build_json self h')) = items (h' ! r)
    \<and> (\<forall>d. (h'[r := d]) ! fixme_counts self = h ! fixme_counts self
           \<and> items (snd (fixme_build_json self (h'[r := d]))
                      ! fst (fixme_build_json self (h'[r := d])))
               = items (h ! fixme_counts self))"
proof -
  from assms(2) have r: "r = length h"
    and h': "h' = h @ [dict_copy (h ! fixme_counts self)]"
    by (simp_all add: fixme_build_json_def new_object_def)
  have keep: "h' ! fixme_counts self = h ! fixme_counts self"
    using assms(1) by (simp add: h' nth_append)
  have copy: "items (h' ! r) = items (h ! fixme_counts self)"
    by (simp add: h' r dict_copy_def)
  have again: "items (snd (fixme_build_json self h') ! fst (fixme_build_json self h'))
      = items (h' ! r)"
    by (simp add: fixme_build_json_def new_object_def dict_copy_def keep copy)
  have mutated: "(h'[r := d]) ! fixme_counts self = h ! fixme_counts self
      \<and> items (snd (fixme_build_json self (h'[r := d]))
                 ! fst (fixme_build_json self (h'[r := d])))
          = items (h ! fixme_counts self)" for d
  proof -
    have "(h'[r := d]) ! fixme_counts self = h ! fixme_counts self"
      using assms(1) by (simp add: h' r nth_append)
    then show ?thesis
      by (simp add: fixme_build_json_def new_object_def dict_copy_def nth_append)
  qed
  from assms(1) r have "r \<noteq> fixme_counts self" by simp
  moreover have "take (length h) h' = h" by (simp add: h')
  ultimately show ?thesis using r keep copy again mutated by blast
qed

text \<open>
  The theorem at a collector that counted 7 twice: the copy is the second object of
  the store, and emptying the copy leaves the next report at 7 counted twice.
\<close>

theorem fixme_build_json_fresh_copy_witness:
  "fixme_build_json \<lparr>fixme_counts = 0\<rparr> [\<lparr>is_defaultdict = True, items = [lit ''7'' \<mapsto> 2]\<rparr>]
     = (1, [\<lparr>is_defaultdict = True, items = [lit ''7'' \<mapsto> 2]\<rparr>,
            \<lparr>is_defaultdict = False, items = [lit ''7'' \<mapsto> 2]\<rparr>])
   \<and> items (snd (fixme_build_json \<lparr>fixme_counts = 0\<rparr>
                    [\<lparr>is_defaultdict = True, items = [lit ''7'' \<mapsto> 2]\<rparr>,
                     \<lparr>is_defaultdict = False, items = Map.empty\<rparr>])
              ! fst (fixme_build_json \<lparr>fixme_counts = 0\<rparr>
                    [\<lparr>is_defaultdict = True, items = [lit ''7'' \<mapsto> 2]\<rparr>,
                     \<lparr>is_defaultdict = False, items = Map.empty\<rparr>]))
       = [lit ''7'' \<mapsto> 2]"
proof -
  let ?c = "\<lparr>fixme_counts = 0\<rparr>"
  let ?h = "[\<lparr>is_defaultdict = True, items = [lit ''7'' \<mapsto> (2::int)]\<rparr>]"
  let ?h' = "[\<lparr>is_defaultdict = True, items = [lit ''7'' \<mapsto> (2::int)]\<rparr>,
              \<lparr>is_defaultdict = False, items = [lit ''7'' \<mapsto> (2::int)]\<rparr>]"
  let ?d = "\<lparr>is_defaultdict = False, items = (Map.empty :: str \<rightharpoonup> int)\<rparr>"
  have valid: "fixme_counts ?c < length ?h" by simp
  have call: "fixme_build_json ?c ?h = (1, ?h')"
    by (simp add: fixme_build_json_def new_object_def dict_copy_def)
  have "items (snd (fixme_build_json ?c (?h'[1 := ?d]))
                 ! fst (fixme_build_json ?c (?h'[1 := ?d])))
          = items (?h ! fixme_counts ?c)"
    using fixme_build_json_fresh_copy [OF valid call] by blast
  with call show ?thesis by simp
qed


section \<open>Properties of the path resolver\<close>

lemma str_replace_from_absent:
  "(\<And>u v. s \<noteq> u @ old @ v) \<Longrightarrow> str_replace_from old new s = s"
proof (induction s)
  case Nil
  show ?case by simp
next
  case (Cons c cs)
  have np: "\<not> prefix old (c # cs)"
  proof
    assume "prefix old (c # cs)"
    then obtain v where "c # cs = old @ v" by (auto simp: prefix_def)
    then have "c # cs = [] @ old @ v" by simp
    with Cons.prems show False by blast
  qed
  have "\<And>u v. cs \<noteq> u @ old @ v"
  proof
    fix u v assume "cs = u @ old @ v"
    then have "c # cs = (c # u) @ old @ v" by simp
    with Cons.prems show False by blast
  qed
  then have "str_replace_from old new cs = cs" by (rule Cons.IH)
  with np show ?case by simp
qed

lemma str_replace_from_only_at_end:
  assumes "old \<noteq> []"
    and "\<And>u v. xs @ old = u @ old @ v \<Longrightarrow> v = []"
  shows "str_replace_from old new (xs @ old) = xs @ new"
  using assms(2)
proof (induction xs)
  case Nil
  from assms(1) obtain c cs where old: "old = c # cs" by (cases old) auto
  have "str_replace_from old new old = new @ str_replace_from old new (drop (length old) old)"
    using assms(1) by (subst old, subst str_replace_from.simps(2)) (simp add: old)
  then show ?case by simp
next
  case (Cons x xs)
  have np: "\<not> prefix old ((x # xs) @ old)"
  proof
    assume "prefix old ((x # xs) @ old)"
    then obtain v where v: "(x # xs) @ old = old @ v" by (auto simp: prefix_def)
    then have "(x # xs) @ old = [] @ old @ v" by simp
    then have "v = []" by (rule Cons.prems)
    with v show False by simp
  qed
  have "str_replace_from old new (xs @ old) = xs @ new"
  proof (rule Cons.IH)
    fix u v assume "xs @ old = u @ old @ v"
    then have "(x # xs) @ old = (x # u) @ old @ v" by simp
    then show "v = []" by (rule Cons.prems)
  qed
  with np show ?case by simp
qed


lemma only_at_end_sound:
  "only_at_end old s \<Longrightarrow> s = u @ old @ v \<Longrightarrow> old \<noteq> [] \<Longrightarrow> v = []"
proof (induction u arbitrary: s)
  case Nil
  from Nil(3) obtain c cs where old: "old = c # cs" by (cases old) auto
  from Nil(2) old have s: "s = c # (cs @ v)" by simp
  have "prefix old s" using Nil(2) by simp
  with Nil(1) have "s = old" unfolding s by simp
  with Nil(2) show ?case by simp
next
  case (Cons x u)
  then have "only_at_end old (u @ old @ v)" by simp
  then show ?case using Cons.IH Cons.prems(3) by blast
qed

lemma configuration_marker_nonempty: "configuration_marker \<noteq> []"
  by (simp add: configuration_marker_def)

lemma str_replace_marker_only_at_end:
  assumes "\<forall>u v. s = u @ configuration_marker @ v \<longrightarrow> v = []"
  shows "str_replace s configuration_marker [] = strip_trailing_marker s"
proof (cases "suffix configuration_marker s")
  case True
  then obtain xs where s: "s = xs @ configuration_marker" by (auto simp: suffix_def)
  have "str_replace_from configuration_marker [] (xs @ configuration_marker) = xs @ []"
    using configuration_marker_nonempty assms unfolding s
    by (intro str_replace_from_only_at_end) blast+
  then show ?thesis
    using True by (simp add: str_replace_def strip_trailing_marker_def s configuration_marker_nonempty)
next
  case False
  have "\<And>u v. s \<noteq> u @ configuration_marker @ v"
  proof
    fix u v assume uv: "s = u @ configuration_marker @ v"
    with assms have "v = []" by blast
    with uv have "suffix configuration_marker s" by (simp add: suffix_def)
    with False show False by simp
  qed
  then have "str_replace_from configuration_marker [] s = s"
    by (rule str_replace_from_absent)
  then show ?thesis
    using False by (simp add: str_replace_def strip_trailing_marker_def configuration_marker_nonempty)
qed

text \<open>
  Claim C6.  With an override string in which the configuration marker stands nowhere
  but at the end, the base directory is the path made of the override with the marker
  at its end, if there is one, cut off and nothing else changed; no file system is
  consulted, the result is a function of the string alone.
\<close>

theorem override_base_directory:
  assumes "local_configuration \<noteq> []"
    and "\<forall>u v. local_configuration = u @ configuration_marker @ v \<longrightarrow> v = []"
  shows "pyre_configuration_directory cwd local_configuration
           = Path (strip_trailing_marker local_configuration)"
  using assms
  by (simp add: pyre_configuration_directory_def str_replace_marker_only_at_end)

text \<open>
  The theorem at an override that ends with the marker, and at one that does not
  have it.
\<close>

theorem override_base_directory_witness:
  "pyre_configuration_directory (Path (lit ''/cwd'')) (lit ''proj/.pyre_configuration.local'') = Path (lit ''proj/'')
   \<and> pyre_configuration_directory (Path (lit ''/cwd'')) (lit ''proj/sub'') = Path (lit ''proj/sub'')"
proof -
  let ?lc = "lit ''proj/.pyre_configuration.local''"
  let ?pl = "lit ''proj/sub''"
  have "only_at_end configuration_marker ?lc"
    by (simp add: configuration_marker_def)
  then have only: "\<forall>u v. ?lc = u @ configuration_marker @ v \<longrightarrow> v = []"
    using only_at_end_sound configuration_marker_nonempty by blast
  have "only_at_end configuration_marker ?pl"
    by (simp add: configuration_marker_def)
  then have only': "\<forall>u v. ?pl = u @ configuration_marker @ v \<longrightarrow> v = []"
    using only_at_end_sound configuration_marker_nonempty by blast
  have "strip_trailing_marker ?lc = lit ''proj/''"
    by (simp add: strip_trailing_marker_def configuration_marker_def suffix_def)
  moreover have "strip_trailing_marker ?pl = ?pl"
    by (simp add: strip_trailing_marker_def configuration_marker_def suffix_def)
  moreover have "pyre_configuration_directory (Path (lit ''/cwd'')) ?lc
      = Path (strip_trailing_marker ?lc)"
    using override_base_directory [of ?lc "Path (lit ''/cwd'')"] only by simp
  moreover have "pyre_configuration_directory (Path (lit ''/cwd'')) ?pl
      = Path (strip_trailing_marker ?pl)"
    using override_base_directory [of ?pl "Path (lit ''/cwd'')"] only' by simp
  ultimately show ?thesis by simp
qed

text \<open>
  Outside the claim: an override that has the marker elsewhere loses it there too,
  since \<^verbatim>\<open>str.replace\<close> replaces every occurrence.
\<close>

lemma override_marker_elsewhere:
  "pyre_configuration_directory (Path (lit ''/cwd'')) (lit ''a.pyre_configuration.local/b'') = Path (lit ''a/b'')"
  "pyre_configuration_directory (Path (lit ''/cwd''))
     (lit ''a/.pyre_configuration.local/.pyre_configuration.local'') = Path (lit ''a//'')"
  by (simp_all add: pyre_configuration_directory_def str_replace_def configuration_marker_def)

text \<open>
  Claim C7.  Without filters the result is the base directory alone; with filters it
  has one path for each filter, at the same position, which is the base directory
  joined with that filter: the order is kept and a repeated filter gives a repeated
  path.
\<close>

theorem find_paths_result:
  fixes cwd :: path and local_configuration :: str
  defines "base \<equiv> pyre_configuration_directory cwd local_configuration"
  shows "(paths = [] \<longrightarrow> find_paths cwd local_configuration paths = [base])
    \<and> (paths \<noteq> [] \<longrightarrow>
         length (find_paths cwd local_configuration paths) = length paths
         \<and> (\<forall>i < length paths.
               find_paths cwd local_configuration paths ! i = PathJoin base (paths ! i)))"
  by (simp add: find_paths_def base_def)

text \<open>The theorem without filters, and at three filters of which two are equal.\<close>

theorem find_paths_result_witness:
  "find_paths (Path (lit ''/cwd'')) [] [] = [Path (lit ''/cwd'')]
   \<and> find_paths (Path (lit ''/cwd'')) [] [lit ''x'', lit ''y'', lit ''x'']
       = [PathJoin (Path (lit ''/cwd'')) (lit ''x''), PathJoin (Path (lit ''/cwd'')) (lit ''y''),
          PathJoin (Path (lit ''/cwd'')) (lit ''x'')]"
proof -
  have base: "pyre_configuration_directory (Path (lit ''/cwd'')) [] = Path (lit ''/cwd'')"
    by (simp add: pyre_configuration_directory_def)
  have e: "find_paths (Path (lit ''/cwd'')) [] [] = [Path (lit ''/cwd'')]"
    using find_paths_result [of "[]" "Path (lit ''/cwd'')" "[]"] base by simp
  have n: "length (find_paths (Path (lit ''/cwd'')) [] [lit ''x'', lit ''y'', lit ''x'']) = 3
    \<and> (\<forall>i < 3. find_paths (Path (lit ''/cwd'')) [] [lit ''x'', lit ''y'', lit ''x''] ! i
                 = PathJoin (Path (lit ''/cwd'')) ([lit ''x'', lit ''y'', lit ''x''] ! i))"
    using find_paths_result [of "[lit ''x'', lit ''y'', lit ''x'']" "Path (lit ''/cwd'')" "[]"] base by simp
  have "find_paths (Path (lit ''/cwd'')) [] [lit ''x'', lit ''y'', lit ''x'']
       = map (\<lambda>i. PathJoin (Path (lit ''/cwd'')) ([lit ''x'', lit ''y'', lit ''x''] ! i)) [0..<3]"
    using n by (intro nth_equalityI) auto
  also have "\<dots> = [PathJoin (Path (lit ''/cwd'')) (lit ''x''), PathJoin (Path (lit ''/cwd'')) (lit ''y''),
          PathJoin (Path (lit ''/cwd'')) (lit ''x'')]"
    by (simp add: upt_rec)
  finally show ?thesis using e by simp
qed

text \<open>
  Claim C10.  The result of the path resolver is never empty: it has as many paths as
  there are filters when there is at least one, and one path otherwise.
\<close>

theorem find_paths_nonempty:
  "find_paths cwd local_configuration paths \<noteq> []
   \<and> length (find_paths cwd local_configuration paths)
       = (if paths = [] then 1 else length paths)"
  by (simp add: find_paths_def)

section \<open>The command run twice\<close>

text \<open>
  Claim C5 says that a second run on unchanged input gives the same report as the
  first.  Within one interpreter the code does not do so: both runs build their
  suppression collector without an argument, so both count into the one dictionary
  that is the constructor's default, and the second run starts from the counts of the
  first.  With one file whose only node is the comment \<^verbatim>\<open># pyre-fixme[7]:\<close>, the first
  report counts 7 once and the second counts it twice, while the annotation part of
  the report is the same.  This holds for every table of decimal digits that has the
  digit 7.
\<close>

theorem run_twice_reports_differ:
  assumes "decimal (of_char (CHR ''7''))"
  shows "(case run decimal (\<lambda>paths. Inr [[CommentNode (lit ''# pyre-fixme[7]:'')]])
           (Path (lit ''/cwd'')) (fst (load_module [])) [] [] (snd (load_module [])) of
      Inl e \<Rightarrow> False
    | Inr (report1, h1) \<Rightarrow>
        fixmes report1 = [lit ''7'' \<mapsto> 1]
        \<and> (case run decimal (\<lambda>paths. Inr [[CommentNode (lit ''# pyre-fixme[7]:'')]])
                   (Path (lit ''/cwd'')) (fst (load_module [])) [] [] h1 of
              Inl e \<Rightarrow> False
            | Inr (report2, h2) \<Rightarrow>
                fixmes report2 = [lit ''7'' \<mapsto> 2]
                \<and> annotations report2 = annotations report1
                \<and> report2 \<noteq> report1))"
proof -
  have m7: "re_match_fixme decimal (lit ''# pyre-fixme[7]:'') = Some (lit ''7'')"
    using assms by (simp add: re_match_fixme_def fixme_regex_open_def fixme_regex_close_def)
  have differ: "[lit ''7'' \<mapsto> (2::int)] \<noteq> [lit ''7'' \<mapsto> 1]"
  proof
    assume "[lit ''7'' \<mapsto> (2::int)] = [lit ''7'' \<mapsto> 1]"
    then have "[lit ''7'' \<mapsto> (2::int)] (lit ''7'') = [lit ''7'' \<mapsto> (1::int)] (lit ''7'')"
      by simp
    then show False by simp
  qed
  show ?thesis
    using m7 differ
    by (simp add: run_def load_module_def new_object_def FixmeCountCollector_init_def
        fixme_build_json_def dict_copy_def visit_Comment_def dict_getitem_def
        dict_setitem_def nth_append)
qed

text \<open>The theorem at the table of the examples.\<close>

theorem run_twice_reports_differ_witness:
  "(case run sample_decimal (\<lambda>paths. Inr [[CommentNode (lit ''# pyre-fixme[7]:'')]])
           (Path (lit ''/cwd'')) (fst (load_module [])) [] [] (snd (load_module [])) of
      Inl e \<Rightarrow> False
    | Inr (report1, h1) \<Rightarrow>
        fixmes report1 = [lit ''7'' \<mapsto> 1]
        \<and> (case run sample_decimal (\<lambda>paths. Inr [[CommentNode (lit ''# pyre-fixme[7]:'')]])
                   (Path (lit ''/cwd'')) (fst (load_module [])) [] [] h1 of
              Inl e \<Rightarrow> False
            | Inr (report2, h2) \<Rightarrow>
                fixmes report2 = [lit ''7'' \<mapsto> 2]
                \<and> annotations report2 = annotations report1
                \<and> report2 \<noteq> report1))"
proof -
  have "sample_decimal (of_char (CHR ''7''))"
    by (simp add: sample_decimal_def)
  then show ?thesis
    by (rule run_twice_reports_differ)
qed

end
